theory Spec2Isabelle
  imports Main
begin

section \<open>Data model\<close>

text \<open>
  The declarations of \<^verbatim>\<open>Compound\<close>, \<^verbatim>\<open>ApiResponse\<close> and \<^verbatim>\<open>FilterParams\<close> live in
  \<^verbatim>\<open>types.ts\<close>. The code under study reads only \<^verbatim>\<open>mol_idx\<close> of a compound,
  so the remaining attribute fields are kept as one field of an arbitrary type.
  JavaScript numbers that identify compounds or count pages and items are integers
  here, so \<^verbatim>\<open>===\<close> on them is equality and 0 is the only falsy one.
\<close>

record 'a Compound =
  mol_idx :: int
  attributes :: 'a

record 'a ApiResponse =
  items :: "'a Compound list"
  page :: int
  total_pages :: int
  total_items :: int

text \<open>
  A value stored under a key of a parameter object. A key can be present with the
  value \<^verbatim>\<open>undefined\<close>, which is not the same object as one without the key.
\<close>

datatype param_value = VNum int | VStr string | VBool bool | VUndefined

type_synonym FilterParams = "string \<rightharpoonup> param_value"

section \<open>The fetch client (api.ts)\<close>

text \<open>
  The two copies of \<^verbatim>\<open>api.ts\<close> differ in the module constant only.
\<close>

definition API_BASE_URL :: string where
  "API_BASE_URL = ''http://ms3fa.helmholtz-hzi.de:80/api''"

definition API_BASE_URL_part_000 :: string where
  "API_BASE_URL_part_000 = ''http://104.194.156.115:443/api''"

text \<open>
  What a call does besides returning: the HTTP requests handed to axios and the
  lines written with \<^verbatim>\<open>console.error\<close>, in program order.
\<close>

datatype 'e effect =
  is_HttpGet: HttpGet string FilterParams
| is_ConsoleError: ConsoleError string 'e

text \<open>
  The object literal \<^verbatim>\<open>{ page: 1, per_page: 50, ...params }\<close>: the spread copies the
  own properties of \<^verbatim>\<open>params\<close> after the two literal ones, so a later key wins.
\<close>

definition request_params :: "FilterParams \<Rightarrow> FilterParams" where
  "request_params params = [''page'' \<mapsto> VNum 1, ''per_page'' \<mapsto> VNum 50] ++ params"

text \<open>
  \<^verbatim>\<open>fetchCompounds\<close>. The first argument is the module constant, the second is
  \<^verbatim>\<open>axios.get\<close>: for a URL and a parameter object it either rejects with an error
  (transport failure or a status outside 2xx) or resolves, and then \<open>Inr\<close> carries the
  \<^verbatim>\<open>data\<close> field of the response. The third argument is \<open>None\<close> when the caller
  omits \<^verbatim>\<open>params\<close>, which makes the default \<^verbatim>\<open>{}\<close> apply. The result is the list of
  effects and the outcome of the returned promise: \<open>Inl\<close> is the rethrown error.
\<close>

definition fetchCompounds ::
  "string \<Rightarrow> (string \<Rightarrow> FilterParams \<Rightarrow> 'e + 'r) \<Rightarrow> FilterParams option
     \<Rightarrow> 'e effect list \<times> ('e + 'r)" where
  "fetchCompounds base_url axios_get params_arg =
     (let params = (case params_arg of None \<Rightarrow> Map.empty | Some p \<Rightarrow> p);
          url = base_url @ ''/items'';
          query = request_params params
      in case axios_get url query of
           Inr response_data \<Rightarrow> ([HttpGet url query], Inr response_data)
         | Inl error \<Rightarrow>
             ([HttpGet url query, ConsoleError ''Error fetching compounds:'' error],
              Inl error))"

section \<open>The view (App.tsx)\<close>

text \<open>
  \<^verbatim>\<open>Array.prototype.findIndex\<close>: the index of the first element that satisfies the
  predicate, scanning from index 0, and \<open>-1\<close> when there is none.
\<close>

fun findIndexFrom :: "int \<Rightarrow> ('a \<Rightarrow> bool) \<Rightarrow> 'a list \<Rightarrow> int" where
  "findIndexFrom i p [] = - 1"
| "findIndexFrom i p (x # xs) = (if p x then i else findIndexFrom (i + 1) p xs)"

definition findIndex :: "('a \<Rightarrow> bool) \<Rightarrow> 'a list \<Rightarrow> int" where
  "findIndex p xs = findIndexFrom 0 p xs"

text \<open>
  \<^verbatim>\<open>v || d\<close> where \<^verbatim>\<open>v\<close> comes from an optional chain \<^verbatim>\<open>data?.field\<close>: \<open>None\<close> is
  \<^verbatim>\<open>undefined\<close>. A number is falsy when it is 0, an array never is.
\<close>

definition or_number :: "int option \<Rightarrow> int \<Rightarrow> int" where
  "or_number v d = (case v of None \<Rightarrow> d | Some n \<Rightarrow> if n = 0 then d else n)"

definition or_array :: "'a list option \<Rightarrow> 'a list \<Rightarrow> 'a list" where
  "or_array v d = (case v of None \<Rightarrow> d | Some xs \<Rightarrow> xs)"

text \<open>
  The six callbacks that the hook returns. App hands them on as they are, so each is
  represented by its name.
\<close>

datatype handler =
  handleApplyFilters | handleViewDetail | handleBack
| handleNextCompound | handlePreviousCompound | handlePageChange

text \<open>
  The part of the hook's result that App reads besides the callbacks.
\<close>

record 'a useCompounds =
  data :: "'a ApiResponse option"
  loading :: bool
  selectedCompound :: "'a Compound option"
  allFilteredCompounds :: "'a Compound list"

text \<open>
  What App returns: the detail page with its props, or the home layout, whose
  \<^verbatim>\<open>FilterSidebar\<close> gets \<open>onApplyFilters\<close> and whose \<^verbatim>\<open>ResultsTable\<close> gets the other props
  (its props \<^verbatim>\<open>data\<close> and \<^verbatim>\<open>loading\<close> are the selectors \<open>table_data\<close> and \<open>table_loading\<close>).
\<close>

datatype 'a element =
  is_DetailPage: DetailPage (compound: "'a Compound") (onBack: handler) (onNext: handler)
    (onPrevious: handler) (currentIndex: int) (totalCount: int)
| is_Home: Home (onApplyFilters: handler) (table_data: "'a Compound list") (table_loading: bool)
    (onViewDetail: handler) (currentPage: int) (totalPages: int) (totalItems: int)
    (onPageChange: handler)

definition App :: "('a, 'm) useCompounds_scheme \<Rightarrow> 'a element" where
  "App h =
     (let currentPage = (case selectedCompound h of Some c \<Rightarrow> ''detail'' | None \<Rightarrow> ''home'')
      in case (if currentPage = ''detail'' then selectedCompound h else None) of
           Some selected \<Rightarrow>
             (let currentIndex =
                    findIndex (\<lambda>item. mol_idx item = mol_idx selected) (allFilteredCompounds h)
              in DetailPage selected handleBack handleNextCompound handlePreviousCompound
                   currentIndex (int (length (allFilteredCompounds h))))
         | None \<Rightarrow>
             Home handleApplyFilters
               (or_array (map_option items (data h)) [])
               (loading h)
               handleViewDetail
               (or_number (map_option page (data h)) 1)
               (or_number (map_option total_pages (data h)) 0)
               (or_number (map_option total_items (data h)) 0)
               handlePageChange)"

section \<open>The view-state coordinator (hooks/useCompounds)\<close>

text \<open>
  Modelled from the spec: the state of the hook \<^verbatim>\<open>useCompounds\<close>, whose source file
  \<^verbatim>\<open>hooks/useCompounds\<close> is not part of the sources at hand. The state is
  \<^verbatim>\<open>data\<close>, \<^verbatim>\<open>loading\<close>, \<^verbatim>\<open>selectedCompound\<close>, \<^verbatim>\<open>allFilteredCompounds\<close> (the four fields
  that App reads), \<^verbatim>\<open>currentFilters\<close> and \<^verbatim>\<open>currentPageNumber\<close>.
\<close>

record 'a coordinator = "'a useCompounds" +
  currentFilters :: FilterParams
  currentPageNumber :: int

text \<open>
  Modelled from the spec: the state of \<^verbatim>\<open>useCompounds\<close> before any response has
  arrived: no data, not loading, nothing selected, no filters, page 1.
\<close>

definition initial :: "'a coordinator" where
  "initial =
     \<lparr>data = None, loading = False, selectedCompound = None, allFilteredCompounds = [],
      currentFilters = Map.empty, currentPageNumber = 1\<rparr>"

text \<open>
  Modelled from the spec: one fetch of \<^verbatim>\<open>useCompounds\<close>, from its start to the
  moment it settles: the state while the request is in flight, the effects of the call of the fetch client, the
  outcome that the caller of the coordinator can observe, and the state afterwards.
\<close>

record ('a, 'e) fetch_run =
  in_flight :: "'a coordinator"
  effects :: "'e effect list"
  outcome :: "'e + 'a ApiResponse"
  settled :: "'a coordinator"

text \<open>
  Modelled from the spec: what \<^verbatim>\<open>useCompounds\<close> does to its state when a fetch settles.
  A success stores the returned page, which supersedes the previous one, and its items
  are the current fetched set; a failure leaves \<^verbatim>\<open>data\<close> as it was; either way
  \<^verbatim>\<open>loading\<close> ends.
\<close>

definition settleFetch :: "'e + 'a ApiResponse \<Rightarrow> 'a coordinator \<Rightarrow> 'a coordinator" where
  "settleFetch result s =
     (case result of
        Inr response \<Rightarrow>
          s\<lparr>data := Some response,
            allFilteredCompounds := items response,
            loading := False\<rparr>
      | Inl error \<Rightarrow> s\<lparr>loading := False\<rparr>)"

text \<open>
  Modelled from the spec: the fetch that \<^verbatim>\<open>useCompounds\<close> triggers, with the existing
  filters and the page number. \<^verbatim>\<open>loading\<close> is true until the fetch settles.
\<close>

definition fetchData ::
  "string \<Rightarrow> (string \<Rightarrow> FilterParams \<Rightarrow> 'e + 'a ApiResponse) \<Rightarrow> 'a coordinator
     \<Rightarrow> ('a, 'e) fetch_run" where
  "fetchData base_url axios_get s =
     (let started = s\<lparr>loading := True\<rparr>;
          params = (currentFilters s)(''page'' \<mapsto> VNum (currentPageNumber s));
          (effs, result) = fetchCompounds base_url axios_get (Some params)
      in \<lparr>in_flight = started,
          effects = effs,
          outcome = result,
          settled = settleFetch result started\<rparr>)"

text \<open>
  Modelled from the spec: \<^verbatim>\<open>applyFilters(filters)\<close> of \<^verbatim>\<open>useCompounds\<close> replaces the
  current filters, resets to page 1 and triggers a fetch.
\<close>

definition applyFilters ::
  "string \<Rightarrow> (string \<Rightarrow> FilterParams \<Rightarrow> 'e + 'a ApiResponse) \<Rightarrow> FilterParams
     \<Rightarrow> 'a coordinator \<Rightarrow> ('a, 'e) fetch_run" where
  "applyFilters base_url axios_get filters s =
     fetchData base_url axios_get (s\<lparr>currentFilters := filters, currentPageNumber := 1\<rparr>)"

text \<open>
  Modelled from the spec: what \<^verbatim>\<open>changePage\<close> of \<^verbatim>\<open>useCompounds\<close> does with a page
  number beyond the range of the last response. The spec says that the call is either
  rejected or clamped and leaves the choice between the two open.
\<close>

datatype range_policy = Reject | Clamp

text \<open>
  Modelled from the spec: \<^verbatim>\<open>changePage(n)\<close> of \<^verbatim>\<open>useCompounds\<close> sets the page number
  and triggers a fetch with the existing filters and the new page. When \<open>n\<close> exceeds
  \<^verbatim>\<open>total_pages\<close> of the page held in \<^verbatim>\<open>data\<close>, the call is rejected, which changes
  nothing and fetches nothing (\<open>None\<close>), or it is clamped to \<^verbatim>\<open>total_pages\<close>. While
  \<^verbatim>\<open>data\<close> is null there is no total to compare with.
\<close>

definition changePage ::
  "range_policy \<Rightarrow> string \<Rightarrow> (string \<Rightarrow> FilterParams \<Rightarrow> 'e + 'a ApiResponse) \<Rightarrow> int
     \<Rightarrow> 'a coordinator \<Rightarrow> ('a, 'e) fetch_run option" where
  "changePage policy base_url axios_get n s =
     (case data s of
        None \<Rightarrow> Some (fetchData base_url axios_get (s\<lparr>currentPageNumber := n\<rparr>))
      | Some response \<Rightarrow>
          if n \<le> total_pages response
          then Some (fetchData base_url axios_get (s\<lparr>currentPageNumber := n\<rparr>))
          else (case policy of
                  Reject \<Rightarrow> None
                | Clamp \<Rightarrow>
                    Some (fetchData base_url axios_get
                            (s\<lparr>currentPageNumber := total_pages response\<rparr>))))"

text \<open>
  Modelled from the spec: \<^verbatim>\<open>viewDetail(compound)\<close> of \<^verbatim>\<open>useCompounds\<close> sets the
  selected compound and does not fetch; \<^verbatim>\<open>back()\<close>, here \<open>back_op\<close>, clears it.
\<close>

definition viewDetail :: "'a Compound \<Rightarrow> 'a coordinator \<Rightarrow> 'a coordinator" where
  "viewDetail c s = s\<lparr>selectedCompound := Some c\<rparr>"

definition back_op :: "'a coordinator \<Rightarrow> 'a coordinator" where
  "back_op s = s\<lparr>selectedCompound := None\<rparr>"

text \<open>
  Modelled from the spec: \<^verbatim>\<open>nextCompound()\<close> and \<^verbatim>\<open>previousCompound()\<close> of
  \<^verbatim>\<open>useCompounds\<close> find the selected compound in \<^verbatim>\<open>allFilteredCompounds\<close> by its \<^verbatim>\<open>mol_idx\<close>
  and select the entry one index later or earlier, clamped at the ends without
  wrapping. The spec does not say what happens when nothing is selected or when no
  entry has the \<^verbatim>\<open>mol_idx\<close>; the state is left as it is then, and no property below
  speaks about those two cases.
\<close>

definition indexOfSelected :: "'a coordinator \<Rightarrow> 'a Compound \<Rightarrow> int" where
  "indexOfSelected s c = findIndex (\<lambda>item. mol_idx item = mol_idx c) (allFilteredCompounds s)"

definition nextCompound :: "'a coordinator \<Rightarrow> 'a coordinator" where
  "nextCompound s =
     (case selectedCompound s of
        None \<Rightarrow> s
      | Some c \<Rightarrow>
          (let i = indexOfSelected s c
           in if 0 \<le> i \<and> i + 1 < int (length (allFilteredCompounds s))
              then s\<lparr>selectedCompound := Some (allFilteredCompounds s ! nat (i + 1))\<rparr>
              else s))"

definition previousCompound :: "'a coordinator \<Rightarrow> 'a coordinator" where
  "previousCompound s =
     (case selectedCompound s of
        None \<Rightarrow> s
      | Some c \<Rightarrow>
          (let i = indexOfSelected s c
           in if 0 < i
              then s\<lparr>selectedCompound := Some (allFilteredCompounds s ! nat (i - 1))\<rparr>
              else s))"

text \<open>
  Modelled from the spec: the states that the application reaches. The user's actions
  call the operations of \<^verbatim>\<open>useCompounds\<close>; a fetch suspends at the request and settles
  later, and nothing cancels it, so other actions and other fetches can come in
  between, and the fetches in flight can settle in any order. A session holds the state
  of the coordinator, the outcomes of the fetches still in flight, and the response of
  the most recent fetch that settled with success. Each fetching action carries the
  answer that the transport has for its request.
\<close>

datatype ('a, 'e) action =
  DoApplyFilters "string \<Rightarrow> FilterParams \<Rightarrow> 'e + 'a ApiResponse" FilterParams
| DoChangePage "string \<Rightarrow> FilterParams \<Rightarrow> 'e + 'a ApiResponse" int
| FetchSettles nat
| DoViewDetail "'a Compound"
| DoBack
| DoNextCompound
| DoPreviousCompound

text \<open>
  Modelled from the spec: a session, as described above, and the one in which the
  application starts.
\<close>

record ('a, 'e) session =
  coordinator_now :: "'a coordinator"
  awaiting :: "('e + 'a ApiResponse) list"
  last_success :: "'a ApiResponse option"

definition session_start :: "('a, 'e) session" where
  "session_start = \<lparr>coordinator_now = initial, awaiting = [], last_success = None\<rparr>"

text \<open>
  Modelled from the spec: the session after one action. A fetching action leaves the
  coordinator in the state it has while the request is in flight and adds the outcome
  to those awaited; a rejected \<^verbatim>\<open>changePage\<close> changes nothing. \<open>FetchSettles k\<close> lets the
  fetch at position \<open>k\<close> of those in flight settle on the state of that moment, and a
  success makes its response the most recent one.
\<close>

fun after ::
  "range_policy \<Rightarrow> string \<Rightarrow> ('a, 'e) session \<Rightarrow> ('a, 'e) action \<Rightarrow> ('a, 'e) session" where
  "after policy base_url c (DoApplyFilters axios_get filters) =
     (let r = applyFilters base_url axios_get filters (coordinator_now c)
      in c\<lparr>coordinator_now := in_flight r, awaiting := awaiting c @ [outcome r]\<rparr>)"
| "after policy base_url c (DoChangePage axios_get n) =
     (case changePage policy base_url axios_get n (coordinator_now c) of
        None \<Rightarrow> c
      | Some r \<Rightarrow> c\<lparr>coordinator_now := in_flight r, awaiting := awaiting c @ [outcome r]\<rparr>)"
| "after policy base_url c (FetchSettles k) =
     (if k < length (awaiting c)
      then c\<lparr>coordinator_now := settleFetch (awaiting c ! k) (coordinator_now c),
             awaiting := take k (awaiting c) @ drop (Suc k) (awaiting c),
             last_success :=
               (case awaiting c ! k of
                  Inr response \<Rightarrow> Some response
                | Inl error \<Rightarrow> last_success c)\<rparr>
      else c)"
| "after policy base_url c (DoViewDetail x) =
     c\<lparr>coordinator_now := viewDetail x (coordinator_now c)\<rparr>"
| "after policy base_url c DoBack = c\<lparr>coordinator_now := back_op (coordinator_now c)\<rparr>"
| "after policy base_url c DoNextCompound =
     c\<lparr>coordinator_now := nextCompound (coordinator_now c)\<rparr>"
| "after policy base_url c DoPreviousCompound =
     c\<lparr>coordinator_now := previousCompound (coordinator_now c)\<rparr>"

text \<open>
  Modelled from the spec: the session that a sequence of actions leads to from the
  start; the reachable states are the states of these sessions.
\<close>

definition session_after ::
  "range_policy \<Rightarrow> string \<Rightarrow> ('a, 'e) action list \<Rightarrow> ('a, 'e) session" where
  "session_after policy base_url actions = foldl (after policy base_url) session_start actions"

text \<open>
  The \<^verbatim>\<open>page\<close> parameter of a request, for reading the effects of a call.
\<close>

fun page_of_request :: "'e effect \<Rightarrow> param_value option" where
  "page_of_request (HttpGet u q) = q ''page''"
| "page_of_request (ConsoleError m e) = None"

section \<open>Example values\<close>

text \<open>
  The three compounds of the spec's navigation example, a coordinator state that
  lists them, two response pages, a transport that fails and one that answers.
\<close>

abbreviation compound_A :: "unit Compound" where
  "compound_A \<equiv> \<lparr>mol_idx = 1, attributes = ()\<rparr>"

abbreviation compound_B :: "unit Compound" where
  "compound_B \<equiv> \<lparr>mol_idx = 2, attributes = ()\<rparr>"

abbreviation compound_C :: "unit Compound" where
  "compound_C \<equiv> \<lparr>mol_idx = 3, attributes = ()\<rparr>"

abbreviation browsing :: "unit Compound option \<Rightarrow> unit coordinator" where
  "browsing sel \<equiv>
     \<lparr>data = None, loading = False, selectedCompound = sel,
      allFilteredCompounds = [compound_A, compound_B, compound_C],
      currentFilters = Map.empty, currentPageNumber = 1\<rparr>"

abbreviation page_zero :: "unit ApiResponse" where
  "page_zero \<equiv> \<lparr>items = [], page = 0, total_pages = 0, total_items = 0\<rparr>"

abbreviation page_two :: "unit ApiResponse" where
  "page_two \<equiv>
     \<lparr>items = [compound_A, compound_B], page = 2, total_pages = 3, total_items = 6\<rparr>"

abbreviation unreachable_server ::
  "string \<Rightarrow> FilterParams \<Rightarrow> string + unit ApiResponse" where
  "unreachable_server \<equiv> \<lambda>u q. Inl ''Network Error''"

abbreviation serving ::
  "unit ApiResponse \<Rightarrow> string \<Rightarrow> FilterParams \<Rightarrow> string + unit ApiResponse" where
  "serving r \<equiv> \<lambda>u q. Inr r"

section \<open>Properties of the fetch client\<close>

lemma request_params_apply:
  "request_params f k =
     (case f k of
        Some v \<Rightarrow> Some v
      | None \<Rightarrow> if k = ''page'' then Some (VNum 1)
                else if k = ''per_page'' then Some (VNum 50) else None)"
  by (simp add: request_params_def map_add_def split: option.split)

lemma fetchCompounds_gets:
  "filter is_HttpGet (fst (fetchCompounds b g po)) =
     [HttpGet (b @ ''/items'')
        (request_params (case po of None \<Rightarrow> Map.empty | Some p \<Rightarrow> p))]"
  by (simp add: fetchCompounds_def Let_def split: sum.split)

text \<open>
  C1. Whatever filter object is passed, and also when none is passed, the call hands
  exactly one GET to axios; its URL is the base URL followed by \<^verbatim>\<open>/items\<close>, and its
  parameter object gives every key the value the caller's object has for it, and
  otherwise the default 1 for \<^verbatim>\<open>page\<close>, 50 for \<^verbatim>\<open>per_page\<close>, and nothing for any other
  key. This holds for either value of the module constant.
\<close>

theorem fetchCompounds_request:
  fixes axios_get :: "string \<Rightarrow> FilterParams \<Rightarrow> 'e + 'r"
  shows "\<exists>q. filter is_HttpGet (fst (fetchCompounds base_url axios_get params_arg))
               = [HttpGet (base_url @ ''/items'') q]
           \<and> (\<forall>k. q k =
                 (case (case params_arg of None \<Rightarrow> Map.empty | Some f \<Rightarrow> f) k of
                    Some v \<Rightarrow> Some v
                  | None \<Rightarrow> if k = ''page'' then Some (VNum 1)
                            else if k = ''per_page'' then Some (VNum 50) else None))"
  unfolding fetchCompounds_gets by (simp add: request_params_apply)

theorem fetchCompounds_request_witness:
  "map page_of_request
     (filter is_HttpGet (fst (fetchCompounds API_BASE_URL unreachable_server
        (Some [''page'' \<mapsto> VNum 7, ''q'' \<mapsto> VStr ''abc''])))) = [Some (VNum 7)]"
  using fetchCompounds_request
    [of API_BASE_URL unreachable_server "Some [''page'' \<mapsto> VNum 7, ''q'' \<mapsto> VStr ''abc'']"]
  by auto

text \<open>
  C6. When the GET is rejected with an error, the call writes that error to the console
  after the one request it made, makes no second request, and rejects with the very
  same error; and the call resolves with a value only if the GET resolved with it.
\<close>

theorem fetchCompounds_failure:
  fixes axios_get :: "string \<Rightarrow> FilterParams \<Rightarrow> 'e + 'r"
  shows
  "(axios_get (base_url @ ''/items'')
        (request_params (case params_arg of None \<Rightarrow> Map.empty | Some f \<Rightarrow> f)) = Inl err
      \<longrightarrow> fetchCompounds base_url axios_get params_arg =
           ([HttpGet (base_url @ ''/items'')
               (request_params (case params_arg of None \<Rightarrow> Map.empty | Some f \<Rightarrow> f)),
             ConsoleError ''Error fetching compounds:'' err],
            Inl err))
   \<and> (\<forall>r. snd (fetchCompounds base_url axios_get params_arg) = Inr r
      \<longrightarrow> axios_get (base_url @ ''/items'')
            (request_params (case params_arg of None \<Rightarrow> Map.empty | Some f \<Rightarrow> f)) = Inr r)"
  by (simp add: fetchCompounds_def Let_def split: sum.split)

theorem fetchCompounds_failure_witness:
  "fetchCompounds API_BASE_URL unreachable_server (Some [''page'' \<mapsto> VNum 2]) =
     ([HttpGet (API_BASE_URL @ ''/items'') (request_params [''page'' \<mapsto> VNum 2]),
       ConsoleError ''Error fetching compounds:'' ''Network Error''],
      Inl ''Network Error'')
   \<and> snd (fetchCompounds API_BASE_URL (serving page_two) None) = Inr page_two"
  using fetchCompounds_failure
    [of unreachable_server API_BASE_URL "Some [''page'' \<mapsto> VNum 2]" "''Network Error''"]
    fetchCompounds_failure [of "serving page_two" API_BASE_URL None "''x''"]
  by (simp add: fetchCompounds_def)

section \<open>Properties of findIndex\<close>

lemma findIndexFrom_absent: "\<forall>x\<in>set xs. \<not> p x \<Longrightarrow> findIndexFrom i p xs = - 1"
  by (induction xs arbitrary: i) auto

lemma findIndexFrom_present:
  "\<exists>x\<in>set xs. p x \<Longrightarrow>
     i \<le> findIndexFrom i p xs \<and> findIndexFrom i p xs < i + int (length xs)
     \<and> p (xs ! nat (findIndexFrom i p xs - i))
     \<and> (\<forall>j < nat (findIndexFrom i p xs - i). \<not> p (xs ! j))"
proof (induction xs arbitrary: i)
  case Nil
  then show ?case by simp
next
  case (Cons x xs)
  show ?case
  proof (cases "p x")
    case True
    then show ?thesis by simp
  next
    case False
    with Cons.prems have ex: "\<exists>y\<in>set xs. p y" by auto
    note ih = Cons.IH [OF ex, of "i + 1"]
    let ?r = "findIndexFrom (i + 1) p xs"
    from ih have b: "i + 1 \<le> ?r" "?r < i + 1 + int (length xs)" by auto
    then have n: "nat (?r - i) = Suc (nat (?r - (i + 1)))" by simp
    from ih have px: "p (xs ! nat (?r - (i + 1)))" by simp
    from ih have lt: "\<forall>j < nat (?r - (i + 1)). \<not> p (xs ! j)" by simp
    have "\<forall>j < nat (?r - i). \<not> p ((x # xs) ! j)"
    proof (intro allI impI)
      fix j assume "j < nat (?r - i)"
      then show "\<not> p ((x # xs) ! j)"
        using False lt n by (cases j) auto
    qed
    with False b px n show ?thesis by simp
  qed
qed

lemma findIndex_absent:
  "\<forall>x\<in>set xs. \<not> p x \<Longrightarrow> findIndex p xs = - 1"
  by (simp add: findIndex_def findIndexFrom_absent)

lemma findIndex_present:
  assumes "\<exists>x\<in>set xs. p x"
  shows "0 \<le> findIndex p xs" "findIndex p xs < int (length xs)"
    "p (xs ! nat (findIndex p xs))" "\<forall>j < nat (findIndex p xs). \<not> p (xs ! j)"
  using findIndexFrom_present [OF assms, of 0] by (simp_all add: findIndex_def)

text \<open>
  An index whose element satisfies the predicate while no earlier one does is the
  index that \<open>findIndex\<close> returns. Where \<^verbatim>\<open>mol_idx\<close> identifies the compounds of a list,
  this is the index of the compound itself.
\<close>

lemma findIndex_first:
  assumes "i < length xs" "p (xs ! i)" "\<forall>j < i. \<not> p (xs ! j)"
  shows "findIndex p xs = int i"
proof -
  from assms(1) have "xs ! i \<in> set xs" by simp
  with assms(2) have ex: "\<exists>x\<in>set xs. p x" by blast
  let ?r = "nat (findIndex p xs)"
  have r: "int ?r = findIndex p xs" using findIndex_present(1) [OF ex] by simp
  have "\<not> ?r < i" using assms(3) findIndex_present(3) [OF ex] by blast
  moreover have "\<not> i < ?r" using assms(2) findIndex_present(4) [OF ex] by blast
  ultimately have "?r = i" by simp
  with r show ?thesis by simp
qed

lemma findIndex_distinct:
  assumes "distinct (map mol_idx xs)" "i < length xs"
  shows "findIndex (\<lambda>item. mol_idx item = mol_idx (xs ! i)) xs = int i"
proof (rule findIndex_first [OF assms(2)])
  show "mol_idx (xs ! i) = mol_idx (xs ! i)" by simp
  show "\<forall>j<i. mol_idx (xs ! j) \<noteq> mol_idx (xs ! i)"
  proof (intro allI impI)
    fix j assume "j < i"
    with assms show "mol_idx (xs ! j) \<noteq> mol_idx (xs ! i)"
      by (auto simp: distinct_conv_nth)
  qed
qed

section \<open>Properties of the view\<close>

lemma App_selected:
  "selectedCompound h = Some c \<Longrightarrow>
   App h = DetailPage c handleBack handleNextCompound handlePreviousCompound
             (findIndex (\<lambda>item. mol_idx item = mol_idx c) (allFilteredCompounds h))
             (int (length (allFilteredCompounds h)))"
  by (simp add: App_def)

lemma App_unselected:
  "selectedCompound h = None \<Longrightarrow>
   App h = Home handleApplyFilters (or_array (map_option items (data h)) []) (loading h)
             handleViewDetail (or_number (map_option page (data h)) 1)
             (or_number (map_option total_pages (data h)) 0)
             (or_number (map_option total_items (data h)) 0) handlePageChange"
  by (simp add: App_def)

text \<open>
  C9. App returns the detail page exactly when a compound is selected. The page then
  shows that compound, and its \<open>currentIndex\<close> is the index of the first entry of
  \<^verbatim>\<open>allFilteredCompounds\<close> with the selected compound's \<^verbatim>\<open>mol_idx\<close>: it lies within the
  list, the entry there has that \<^verbatim>\<open>mol_idx\<close> and no earlier entry has. When no
  entry has it, \<open>currentIndex\<close> is \<open>-1\<close>.
\<close>

theorem App_detail_page:
  "(is_DetailPage (App h) \<longleftrightarrow> selectedCompound h \<noteq> None) \<and>
   (\<forall>c. selectedCompound h = Some c \<longrightarrow>
      compound (App h) = c \<and>
      (if \<exists>x\<in>set (allFilteredCompounds h). mol_idx x = mol_idx c
       then 0 \<le> currentIndex (App h)
          \<and> currentIndex (App h) < int (length (allFilteredCompounds h))
          \<and> mol_idx (allFilteredCompounds h ! nat (currentIndex (App h))) = mol_idx c
          \<and> (\<forall>j < nat (currentIndex (App h)). mol_idx (allFilteredCompounds h ! j) \<noteq> mol_idx c)
       else currentIndex (App h) = - 1))"
proof (cases "selectedCompound h")
  case None
  then show ?thesis by (simp add: App_unselected)
next
  case (Some c)
  let ?p = "\<lambda>item. mol_idx item = mol_idx c"
  let ?xs = "allFilteredCompounds h"
  have ci: "currentIndex (App h) = findIndex ?p ?xs" and co: "compound (App h) = c"
    and dp: "is_DetailPage (App h)"
    using Some by (simp_all add: App_selected)
  show ?thesis
  proof (cases "\<exists>x\<in>set ?xs. ?p x")
    case True
    from findIndex_present [OF True] Some True ci co dp show ?thesis by simp
  next
    case False
    then have "findIndex ?p ?xs = - 1" by (intro findIndex_absent) simp
    with Some False ci co dp show ?thesis by simp
  qed
qed

theorem App_detail_page_witness:
  "selectedCompound (browsing (Some compound_B)) = Some compound_B
   \<and> is_DetailPage (App (browsing (Some compound_B)))
   \<and> currentIndex (App (browsing (Some compound_B))) = 1
   \<and> selectedCompound (browsing (Some \<lparr>mol_idx = 9, attributes = ()\<rparr>))
       = Some \<lparr>mol_idx = 9, attributes = ()\<rparr>
   \<and> currentIndex (App (browsing (Some \<lparr>mol_idx = 9, attributes = ()\<rparr>))) = - 1
   \<and> \<not> is_DetailPage (App (browsing None))"
  using App_detail_page [of "browsing (Some compound_B)"]
    App_detail_page [of "browsing (Some \<lparr>mol_idx = 9, attributes = ()\<rparr>)"]
    App_detail_page [of "browsing None"]
  by (simp add: App_def findIndex_def)

text \<open>
  C10. While \<^verbatim>\<open>data\<close> is null and no compound is selected, App returns the home
  layout whose results table gets no items, current page 1, 0 total pages and 0 total
  items, next to the hook's \<^verbatim>\<open>loading\<close> flag and the callbacks.
\<close>

theorem App_before_first_response:
  "data h = None \<Longrightarrow> selectedCompound h = None \<Longrightarrow>
   App h = Home handleApplyFilters [] (loading h) handleViewDetail 1 0 0 handlePageChange"
  by (simp add: App_unselected or_array_def or_number_def)

theorem App_before_first_response_witness:
  "data (initial :: unit coordinator) = None
   \<and> selectedCompound (initial :: unit coordinator) = None
   \<and> App (initial :: unit coordinator) =
       Home handleApplyFilters [] False handleViewDetail 1 0 0 handlePageChange"
  using App_before_first_response [of "initial :: unit coordinator"]
  by (simp add: initial_def)

section \<open>Properties of the coordinator\<close>

lemma fetchData_outcome:
  "outcome (fetchData b g s) =
     g (b @ ''/items'')
       (request_params ((currentFilters s)(''page'' \<mapsto> VNum (currentPageNumber s))))"
  by (simp add: fetchData_def fetchCompounds_def Let_def split: sum.split)

lemma fetchData_in_flight: "in_flight (fetchData b g s) = s\<lparr>loading := True\<rparr>"
  by (simp add: fetchData_def Let_def split: prod.split)

lemma fetchData_effects:
  "filter is_HttpGet (effects (fetchData b g s)) =
     [HttpGet (b @ ''/items'')
        (request_params ((currentFilters s)(''page'' \<mapsto> VNum (currentPageNumber s))))]"
  by (simp add: fetchData_def fetchCompounds_def Let_def split: sum.split)

lemma fetchData_settled:
  "settled (fetchData b g s) =
     (case outcome (fetchData b g s) of
        Inr r \<Rightarrow> s\<lparr>data := Some r, allFilteredCompounds := items r, loading := False\<rparr>
      | Inl e \<Rightarrow> s\<lparr>loading := False\<rparr>)"
  by (simp add: fetchData_def fetchCompounds_def settleFetch_def Let_def split: sum.split)

lemma fetchData_settles:
  "settled (fetchData b g s) = settleFetch (outcome (fetchData b g s)) (in_flight (fetchData b g s))"
  by (simp add: fetchData_def Let_def split: prod.split)

lemma fetchData_pages:
  "e \<in> set (effects (fetchData b g s)) \<Longrightarrow> page_of_request e = Some v
     \<Longrightarrow> v = VNum (currentPageNumber s)"
  by (auto simp: fetchData_def fetchCompounds_def Let_def request_params_apply
      split: sum.splits)

lemma fetchData_page_list:
  "map page_of_request (filter is_HttpGet (effects (fetchData b g s)))
     = [Some (VNum (currentPageNumber s))]"
  by (simp add: fetchData_effects request_params_apply)

text \<open>
  C2. When a fetch that \<open>applyFilters\<close> or \<open>changePage\<close> started fails, the state after
  it has settled holds the same \<^verbatim>\<open>data\<close> as the state before the operation, and
  \<^verbatim>\<open>loading\<close> is false. (A rejected \<open>changePage\<close> starts no fetch.)
\<close>

theorem failed_fetch_keeps_data:
  "(outcome (applyFilters b g f s) = Inl e \<longrightarrow>
      data (settled (applyFilters b g f s)) = data s
      \<and> \<not> loading (settled (applyFilters b g f s)))
   \<and> (\<forall>r. changePage policy b g n s = Some r \<and> outcome r = Inl e \<longrightarrow>
      data (settled r) = data s \<and> \<not> loading (settled r))"
  by (auto simp: applyFilters_def changePage_def fetchData_settled
      split: option.splits if_splits range_policy.splits)

theorem failed_fetch_keeps_data_witness:
  "changePage Clamp API_BASE_URL unreachable_server 3
      ((browsing None)\<lparr>data := Some page_two\<rparr>)
     = Some (fetchData API_BASE_URL unreachable_server
          ((browsing None)\<lparr>data := Some page_two, currentPageNumber := 3\<rparr>))
   \<and> outcome (fetchData API_BASE_URL unreachable_server
          ((browsing None)\<lparr>data := Some page_two, currentPageNumber := 3\<rparr>))
       = Inl ''Network Error''
   \<and> data (settled (fetchData API_BASE_URL unreachable_server
          ((browsing None)\<lparr>data := Some page_two, currentPageNumber := 3\<rparr>)))
       = Some page_two
   \<and> \<not> loading (settled (fetchData API_BASE_URL unreachable_server
          ((browsing None)\<lparr>data := Some page_two, currentPageNumber := 3\<rparr>)))
   \<and> data (settled (applyFilters API_BASE_URL unreachable_server [''q'' \<mapsto> VStr ''abc'']
      ((browsing None)\<lparr>data := Some page_two\<rparr>))) = Some page_two"
  using failed_fetch_keeps_data
    [of API_BASE_URL unreachable_server "[''q'' \<mapsto> VStr ''abc'']"
        "(browsing None)\<lparr>data := Some page_two\<rparr>" "''Network Error''" Clamp 3]
  by (simp add: changePage_def applyFilters_def fetchData_outcome)

text \<open>
  C7. \<open>applyFilters\<close> with any filters: while the fetch is in flight the current filters
  are the given ones, the page number is 1 and \<^verbatim>\<open>loading\<close> is true; the operation makes
  exactly one GET, whose parameter object has 1 under \<^verbatim>\<open>page\<close> and under every other
  key what the given filters have there (with 50 for \<^verbatim>\<open>per_page\<close> when they have
  none); after the fetch has settled, with either outcome, \<^verbatim>\<open>loading\<close> is
  false and filters and page number are still the new ones.
\<close>

theorem applyFilters_effect:
  "currentFilters (in_flight (applyFilters b g filters s)) = filters
   \<and> currentPageNumber (in_flight (applyFilters b g filters s)) = 1
   \<and> loading (in_flight (applyFilters b g filters s))
   \<and> (\<exists>q. filter is_HttpGet (effects (applyFilters b g filters s)) =
             [HttpGet (b @ ''/items'') q]
          \<and> (\<forall>k. q k =
                (if k = ''page'' then Some (VNum 1)
                 else case filters k of
                        Some v \<Rightarrow> Some v
                      | None \<Rightarrow> if k = ''per_page'' then Some (VNum 50) else None)))
   \<and> currentFilters (settled (applyFilters b g filters s)) = filters
   \<and> currentPageNumber (settled (applyFilters b g filters s)) = 1
   \<and> \<not> loading (settled (applyFilters b g filters s))"
proof -
  let ?s = "s\<lparr>currentFilters := filters, currentPageNumber := 1\<rparr>"
  have run: "applyFilters b g filters s = fetchData b g ?s"
    by (simp add: applyFilters_def)
  have state: "currentFilters (in_flight (fetchData b g ?s)) = filters"
    "currentPageNumber (in_flight (fetchData b g ?s)) = 1"
    "loading (in_flight (fetchData b g ?s))"
    "currentFilters (settled (fetchData b g ?s)) = filters"
    "currentPageNumber (settled (fetchData b g ?s)) = 1"
    "\<not> loading (settled (fetchData b g ?s))"
    by (simp_all add: fetchData_in_flight fetchData_settled split: sum.split)
  let ?q = "request_params (filters(''page'' \<mapsto> VNum 1))"
  have get: "filter is_HttpGet (effects (fetchData b g ?s)) = [HttpGet (b @ ''/items'') ?q]"
    by (simp add: fetchData_effects)
  have keys: "\<forall>k. ?q k =
                (if k = ''page'' then Some (VNum 1)
                 else case filters k of
                        Some v \<Rightarrow> Some v
                      | None \<Rightarrow> if k = ''per_page'' then Some (VNum 50) else None)"
    by (simp add: request_params_apply)
  from get keys
  have "\<exists>q. filter is_HttpGet (effects (fetchData b g ?s)) = [HttpGet (b @ ''/items'') q]
          \<and> (\<forall>k. q k =
                (if k = ''page'' then Some (VNum 1)
                 else case filters k of
                        Some v \<Rightarrow> Some v
                      | None \<Rightarrow> if k = ''per_page'' then Some (VNum 50) else None))"
    by blast
  with state show ?thesis unfolding run by blast
qed

lemma indexOfSelected_browsing:
  "indexOfSelected (browsing sel) compound_A = 0"
  "indexOfSelected (browsing sel) compound_B = 1"
  "indexOfSelected (browsing sel) compound_C = 2"
  by (simp_all add: indexOfSelected_def findIndex_def)

text \<open>
  Where no two entries of the list share a \<^verbatim>\<open>mol_idx\<close>, the index at which the
  selected compound is found is the index at which it stands.
\<close>

lemma indexOfSelected_distinct:
  "distinct (map mol_idx (allFilteredCompounds s)) \<Longrightarrow> i < length (allFilteredCompounds s)
     \<Longrightarrow> indexOfSelected s (allFilteredCompounds s ! i) = int i"
  by (simp add: indexOfSelected_def findIndex_distinct)

lemma indexOfSelected_hd:
  "allFilteredCompounds s \<noteq> [] \<Longrightarrow> indexOfSelected s (hd (allFilteredCompounds s)) = 0"
  by (cases "allFilteredCompounds s") (simp_all add: indexOfSelected_def findIndex_def)

lemma indexOfSelected_last:
  assumes "allFilteredCompounds s \<noteq> []" "distinct (map mol_idx (allFilteredCompounds s))"
  shows "indexOfSelected s (last (allFilteredCompounds s))
           = int (length (allFilteredCompounds s)) - 1"
proof -
  let ?xs = "allFilteredCompounds s"
  from assms(1) have lt: "length ?xs - 1 < length ?xs" by simp
  from assms(1) have l: "last ?xs = ?xs ! (length ?xs - 1)" by (simp add: last_conv_nth)
  from indexOfSelected_distinct [OF assms(2) lt] l assms(1)
  show ?thesis by (simp add: of_nat_diff Suc_leI)
qed

text \<open>
  C3. When the selected compound is found at the last index of
  \<^verbatim>\<open>allFilteredCompounds\<close>, \<open>nextCompound\<close> returns the state as it is; when it is found
  at index 0, \<open>previousCompound\<close> returns the state as it is. In particular this is so
  when the selected compound is the last entry of a list whose \<^verbatim>\<open>mol_idx\<close> values
  are distinct, and when it is the first entry of any list.
\<close>

theorem navigation_clamped:
  "(selectedCompound s = Some c
      \<and> indexOfSelected s c = int (length (allFilteredCompounds s)) - 1
      \<longrightarrow> nextCompound s = s)
   \<and> (selectedCompound s = Some c \<and> indexOfSelected s c = 0 \<longrightarrow> previousCompound s = s)
   \<and> (allFilteredCompounds s \<noteq> [] \<and> distinct (map mol_idx (allFilteredCompounds s))
      \<and> selectedCompound s = Some (last (allFilteredCompounds s))
      \<longrightarrow> nextCompound s = s)
   \<and> (allFilteredCompounds s \<noteq> [] \<and> selectedCompound s = Some (hd (allFilteredCompounds s))
      \<longrightarrow> previousCompound s = s)"
proof (intro conjI impI)
  assume "selectedCompound s = Some c
    \<and> indexOfSelected s c = int (length (allFilteredCompounds s)) - 1"
  then show "nextCompound s = s" by (simp add: nextCompound_def Let_def)
next
  assume "selectedCompound s = Some c \<and> indexOfSelected s c = 0"
  then show "previousCompound s = s" by (simp add: previousCompound_def Let_def)
next
  assume a: "allFilteredCompounds s \<noteq> [] \<and> distinct (map mol_idx (allFilteredCompounds s))
      \<and> selectedCompound s = Some (last (allFilteredCompounds s))"
  then have "indexOfSelected s (last (allFilteredCompounds s))
               = int (length (allFilteredCompounds s)) - 1"
    by (simp add: indexOfSelected_last)
  with a show "nextCompound s = s" by (simp add: nextCompound_def Let_def)
next
  assume a: "allFilteredCompounds s \<noteq> []
      \<and> selectedCompound s = Some (hd (allFilteredCompounds s))"
  then have "indexOfSelected s (hd (allFilteredCompounds s)) = 0"
    by (simp add: indexOfSelected_hd)
  with a show "previousCompound s = s" by (simp add: previousCompound_def Let_def)
qed

theorem navigation_clamped_witness:
  "selectedCompound (browsing (Some compound_C)) = Some (last [compound_A, compound_B, compound_C])
   \<and> distinct (map mol_idx [compound_A, compound_B, compound_C])
   \<and> indexOfSelected (browsing (Some compound_C)) compound_C = 2
   \<and> nextCompound (browsing (Some compound_C)) = browsing (Some compound_C)
   \<and> indexOfSelected (browsing (Some compound_A)) compound_A = 0
   \<and> previousCompound (browsing (Some compound_A)) = browsing (Some compound_A)"
  using navigation_clamped [of "browsing (Some compound_C)" compound_C]
    navigation_clamped [of "browsing (Some compound_A)" compound_A]
  by (simp add: indexOfSelected_browsing)

text \<open>
  C4. When the selected compound is found at index \<open>i\<close> of \<^verbatim>\<open>allFilteredCompounds\<close>:
  if an entry follows, \<open>nextCompound\<close> selects the entry at \<open>i + 1\<close>, and if an entry
  precedes, \<open>previousCompound\<close> selects the entry at \<open>i - 1\<close>; nothing else of the state
  changes. With the list A, B, C of the spec's example, next from B selects C and
  previous from C selects B.
\<close>

theorem navigation_moves:
  assumes "selectedCompound s = Some c" and "indexOfSelected s c = i"
  shows "(0 \<le> i \<and> i + 1 < int (length (allFilteredCompounds s)) \<longrightarrow>
            nextCompound s
              = s\<lparr>selectedCompound := Some (allFilteredCompounds s ! nat (i + 1))\<rparr>)
       \<and> (0 < i \<longrightarrow>
            previousCompound s
              = s\<lparr>selectedCompound := Some (allFilteredCompounds s ! nat (i - 1))\<rparr>)"
  using assms by (simp add: nextCompound_def previousCompound_def Let_def)

theorem navigation_moves_witness:
  "nextCompound (browsing (Some compound_B)) = browsing (Some compound_C)
   \<and> previousCompound (browsing (Some compound_C)) = browsing (Some compound_B)"
  using navigation_moves [of "browsing (Some compound_B)" compound_B 1]
    navigation_moves [of "browsing (Some compound_C)" compound_C 2]
  by (simp add: indexOfSelected_browsing)

lemma changePage_in_range:
  "data s = None \<or> (\<exists>r. data s = Some r \<and> n \<le> total_pages r) \<Longrightarrow>
   changePage policy b g n s = Some (fetchData b g (s\<lparr>currentPageNumber := n\<rparr>))"
  by (auto simp: changePage_def)

lemma changePage_beyond:
  assumes "data s = Some resp" and "total_pages resp < n"
  shows "changePage Reject b g n s = None"
    and "changePage Clamp b g n s
           = Some (fetchData b g (s\<lparr>currentPageNumber := total_pages resp\<rparr>))"
  using assms by (simp_all add: changePage_def)

text \<open>
  C8. After a response whose \<^verbatim>\<open>total_pages\<close> is \<open>T\<close> has been stored, \<open>changePage\<close>
  with \<open>T + 1\<close> is rejected under the one policy, and fetches nothing, and under the
  other it is clamped: it makes exactly one GET, for page \<open>T\<close>. Under either policy no
  request of the call has a \<^verbatim>\<open>page\<close> parameter above \<open>T\<close>.
\<close>

theorem changePage_beyond_range:
  assumes "data s = Some resp" and "total_pages resp = T"
  shows "(policy = Reject \<longrightarrow> changePage policy b g (T + 1) s = None)
       \<and> (policy = Clamp \<longrightarrow>
            (\<exists>r. changePage policy b g (T + 1) s = Some r
                 \<and> currentPageNumber (in_flight r) = T
                 \<and> map page_of_request (filter is_HttpGet (effects r)) = [Some (VNum T)]))
       \<and> (\<forall>r e v. changePage policy b g (T + 1) s = Some r \<and> e \<in> set (effects r)
                   \<and> page_of_request e = Some (VNum v) \<longrightarrow> v \<le> T)"
proof (cases policy)
  case Reject
  from assms have "changePage Reject b g (T + 1) s = None"
    by (intro changePage_beyond(1) [of s resp]) simp_all
  with Reject show ?thesis by simp
next
  case Clamp
  let ?r = "fetchData b g (s\<lparr>currentPageNumber := T\<rparr>)"
  from assms have run: "changePage Clamp b g (T + 1) s = Some ?r"
    using changePage_beyond(2) [of s resp "T + 1" b g] by simp
  have np: "currentPageNumber (in_flight ?r) = T" by (simp add: fetchData_in_flight)
  have pl: "map page_of_request (filter is_HttpGet (effects ?r)) = [Some (VNum T)]"
    by (simp add: fetchData_page_list)
  have "\<forall>e v. e \<in> set (effects ?r) \<and> page_of_request e = Some (VNum v) \<longrightarrow> v \<le> T"
  proof (intro allI impI)
    fix e v assume "e \<in> set (effects ?r) \<and> page_of_request e = Some (VNum v)"
    then have "VNum v = VNum (currentPageNumber (s\<lparr>currentPageNumber := T\<rparr>))"
      by (intro fetchData_pages [of e b g]) simp_all
    then show "v \<le> T" by simp
  qed
  with Clamp run np pl show ?thesis by simp
qed

theorem changePage_beyond_range_witness:
  "data (settled (applyFilters API_BASE_URL (serving page_two) Map.empty initial))
     = Some page_two
   \<and> total_pages page_two = 3
   \<and> changePage Reject API_BASE_URL (serving page_two) (3 + 1)
       (settled (applyFilters API_BASE_URL (serving page_two) Map.empty initial)) = None
   \<and> map page_of_request (filter is_HttpGet (effects (the
       (changePage Clamp API_BASE_URL (serving page_two) (3 + 1)
          (settled (applyFilters API_BASE_URL (serving page_two) Map.empty initial))))))
      = [Some (VNum 3)]"
  using changePage_beyond_range
    [of "settled (applyFilters API_BASE_URL (serving page_two) Map.empty initial)"
        page_two 3 Reject API_BASE_URL "serving page_two"]
    changePage_beyond_range
    [of "settled (applyFilters API_BASE_URL (serving page_two) Map.empty initial)"
        page_two 3 Clamp API_BASE_URL "serving page_two"]
  by (auto simp: applyFilters_def fetchData_settled fetchData_outcome initial_def)

section \<open>Properties of the reachable states\<close>

lemma after_data:
  assumes inv: "data (coordinator_now c) = last_success c"
  shows "data (coordinator_now (after policy b c a)) = last_success (after policy b c a)"
proof (cases a)
  case (DoApplyFilters g f)
  with inv show ?thesis
    by (simp add: Let_def applyFilters_def fetchData_in_flight)
next
  case (DoChangePage g n)
  with inv show ?thesis
    by (simp add: changePage_def fetchData_in_flight
        split: option.split range_policy.split)
next
  case (FetchSettles k)
  with inv show ?thesis
    by (simp add: settleFetch_def split: sum.split)
next
  case (DoViewDetail x)
  with inv show ?thesis by (simp add: viewDetail_def)
next
  case DoBack
  with inv show ?thesis by (simp add: back_op_def)
next
  case DoNextCompound
  with inv show ?thesis by (simp add: nextCompound_def Let_def split: option.split)
next
  case DoPreviousCompound
  with inv show ?thesis by (simp add: previousCompound_def Let_def split: option.split)
qed

lemma foldl_after_data:
  "data (coordinator_now c) = last_success c \<Longrightarrow>
   data (coordinator_now (foldl (after policy b) c actions))
     = last_success (foldl (after policy b) c actions)"
  by (induction actions arbitrary: c) (simp_all add: after_data)

lemma session_after_data:
  "data (coordinator_now (session_after policy b actions))
     = last_success (session_after policy b actions)"
  unfolding session_after_def
  by (rule foldl_after_data) (simp add: session_start_def initial_def)

text \<open>
  C5, as amended. In every state that the application reaches, \<^verbatim>\<open>data\<close> is the
  response of the most recent fetch that settled with success, and null if there is
  none yet; and the page number shown in the list view is the \<^verbatim>\<open>page\<close> field of that
  response when it is not 0, and 1 when no response has arrived yet or when that field
  is 0.
\<close>

theorem shown_page_invariant:
  "data (coordinator_now (session_after policy b actions))
     = last_success (session_after policy b actions)
   \<and> (selectedCompound (coordinator_now (session_after policy b actions)) = None \<longrightarrow>
        currentPage (App (coordinator_now (session_after policy b actions))) =
          (case last_success (session_after policy b actions) of
             None \<Rightarrow> 1
           | Some r \<Rightarrow> if page r = 0 then 1 else page r))"
proof -
  let ?s = "coordinator_now (session_after policy b actions)"
  have d: "data ?s = last_success (session_after policy b actions)"
    by (rule session_after_data)
  have "selectedCompound ?s = None \<longrightarrow>
          currentPage (App ?s) =
            (case data ?s of None \<Rightarrow> 1 | Some r \<Rightarrow> if page r = 0 then 1 else page r)"
    by (simp add: App_unselected or_number_def split: option.split)
  with d show ?thesis by simp
qed

theorem shown_page_invariant_witness:
  "last_success (session_after Clamp API_BASE_URL
       [DoApplyFilters (serving page_two) Map.empty, FetchSettles 0]) = Some page_two
   \<and> selectedCompound (coordinator_now (session_after Clamp API_BASE_URL
       [DoApplyFilters (serving page_two) Map.empty, FetchSettles 0])) = None
   \<and> currentPage (App (coordinator_now (session_after Clamp API_BASE_URL
       [DoApplyFilters (serving page_two) Map.empty, FetchSettles 0]))) = 2
   \<and> currentPage (App (coordinator_now (session_after Clamp API_BASE_URL
       ([] :: (unit, string) action list)))) = 1"
  using shown_page_invariant
    [of Clamp API_BASE_URL "[DoApplyFilters (serving page_two) Map.empty, FetchSettles 0]"]
    shown_page_invariant [of Clamp API_BASE_URL "[] :: (unit, string) action list"]
  by (simp add: session_after_def session_start_def initial_def applyFilters_def
      fetchData_in_flight fetchData_outcome settleFetch_def)

text \<open>
  C5 as stated fails in the state reached when the first fetch is answered with a page
  whose \<^verbatim>\<open>page\<close> field is 0: \<^verbatim>\<open>data?.page || 1\<close> treats 0 like a missing value, so
  the list view shows 1.
\<close>

theorem shown_page_counterexample:
  "last_success (session_after Clamp API_BASE_URL
       [DoApplyFilters (serving page_zero) Map.empty, FetchSettles 0]) = Some page_zero
   \<and> page page_zero = 0
   \<and> selectedCompound (coordinator_now (session_after Clamp API_BASE_URL
       [DoApplyFilters (serving page_zero) Map.empty, FetchSettles 0])) = None
   \<and> currentPage (App (coordinator_now (session_after Clamp API_BASE_URL
       [DoApplyFilters (serving page_zero) Map.empty, FetchSettles 0]))) = 1"
  by (simp add: session_after_def session_start_def initial_def applyFilters_def
      fetchData_in_flight fetchData_outcome settleFetch_def App_def or_number_def)

end
